theory Spec2Isabelle
  imports Complex_Main "HOL-Library.Multiset"
begin

section \<open>The Weisfeiler-Lehman subtree kernel of GraKeL: \<open>grakel/kernels/subtree_wl.py\<close>\<close>

text \<open>
  The class \<open>subtree_wl\<close> has two methods of its own. \<open>parse_input\<close> turns an iterable of
  graph-like elements into a list of inverted label dictionaries (label to list of nodes),
  and \<open>pairwise_operation\<close> scores two such dictionaries. Both are embedded below as
  executable functions, together with what they use of code that is not among the sources
  (\<open>inv_dict\<close>, the class \<open>Graph\<close>, and \<open>fit_transform\<close> of the base class); the theorems
  after the definitions relate them to the written specification of the repository.
\<close>

subsection \<open>Python dictionaries\<close>

text \<open>
  A \<open>dict\<close> is an association list in insertion order. Python keeps one entry per key, which
  is the predicate \<open>wf_dict\<close>; every theorem about dictionaries assumes it of its arguments.
  \<open>dict_getitem d k\<close> is \<open>d[k]\<close>, with \<open>None\<close> for the \<open>KeyError\<close> of an absent key.
\<close>

type_synonym ('k, 'v) dict = "('k \<times> 'v) list"

definition dict_len :: "('k, 'v) dict \<Rightarrow> nat" where
  "dict_len d = length d"

definition dict_keys :: "('k, 'v) dict \<Rightarrow> 'k list" where
  "dict_keys d = map fst d"

definition dict_contains :: "('k, 'v) dict \<Rightarrow> 'k \<Rightarrow> bool" where
  "dict_contains d k = (k \<in> set (dict_keys d))"

definition dict_getitem :: "('k, 'v) dict \<Rightarrow> 'k \<Rightarrow> 'v option" where
  "dict_getitem d k = map_of d k"

definition wf_dict :: "('k, 'v) dict \<Rightarrow> bool" where
  "wf_dict d = distinct (dict_keys d)"

subsection \<open>\<open>pairwise_operation\<close>\<close>

text \<open>
  \<^verbatim>\<open>
  if len(lx) < len(ly):
      ls, lb = lx, ly
  else:
      ls, lb = ly, lx
  return sum(len(ls[x])*len(lb[x]) for x in ls if x in lb)
  \<close>
  \<open>product_term ls lb x\<close> is one item of the generator, \<open>len(ls[x])*len(lb[x])\<close>; it is
  \<open>None\<close> when one of the two subscriptions raises. \<open>py_sum\<close> is the built-in \<open>sum\<close> over
  the generated items: it adds from the left, starting at 0, and stops at the first item
  that raises. \<open>kernel_sum ls lb\<close> is the \<open>return\<close> line for a fixed choice of the iterated
  dictionary \<open>ls\<close>, and \<open>pairwise_operation\<close> makes the choice by comparing the sizes. The
  result is a Python integer, hence \<open>int\<close>.
\<close>

definition product_term :: "('l, 'n list) dict \<Rightarrow> ('l, 'n list) dict \<Rightarrow> 'l \<Rightarrow> int option" where
  "product_term ls lb x =
     (case dict_getitem ls x of
        None \<Rightarrow> None
      | Some ns \<Rightarrow>
          (case dict_getitem lb x of
             None \<Rightarrow> None
           | Some ms \<Rightarrow> Some (int (length ns) * int (length ms))))"

fun py_sum :: "int \<Rightarrow> int option list \<Rightarrow> int option" where
  "py_sum acc [] = Some acc"
| "py_sum acc (None # ts) = None"
| "py_sum acc (Some v # ts) = py_sum (acc + v) ts"

definition kernel_sum :: "('l, 'n list) dict \<Rightarrow> ('l, 'n list) dict \<Rightarrow> int option" where
  "kernel_sum ls lb =
     py_sum 0 (map (product_term ls lb) (filter (dict_contains lb) (dict_keys ls)))"

definition pairwise_operation :: "('l, 'n list) dict \<Rightarrow> ('l, 'n list) dict \<Rightarrow> int option" where
  "pairwise_operation lx ly =
     (if dict_len lx < dict_len ly then kernel_sum lx ly else kernel_sum ly lx)"

subsection \<open>\<open>inv_dict\<close>\<close>

text \<open>
  Modelled from the spec: \<open>inv_dict\<close> of \<open>grakel.tools\<close> is imported by the module and is
  not among the sources. The specification says that the node-label mapping is inverted by
  grouping all node identifiers by their label value. \<open>add_node\<close> puts one node into the
  bucket of its label, opening the bucket when the label is new; \<open>inv_dict\<close> does so for
  every entry of the mapping, in its order.
\<close>

fun add_node :: "'l \<Rightarrow> 'n \<Rightarrow> ('l, 'n list) dict \<Rightarrow> ('l, 'n list) dict" where
  "add_node l n [] = [(l, [n])]"
| "add_node l n ((k, ns) # rest) =
     (if k = l then (k, ns @ [n]) # rest else (k, ns) # add_node l n rest)"

definition inv_dict :: "('n, 'l) dict \<Rightarrow> ('l, 'n list) dict" where
  "inv_dict d = foldl (\<lambda>acc (n, l). add_node l n acc) [] d"

subsection \<open>\<open>parse_input\<close>\<close>

text \<open>
  The code looks at an element \<open>x\<close> of the input through three tests only:
  \<open>isinstance(x, collections.Iterable)\<close>, the length of \<open>list(x)\<close> together with its item at
  index 1, and \<open>type(x) is Graph\<close>. The datatype \<open>element\<close> has one constructor for each way
  these tests can come out.

  \<^item> \<open>Iterable xl\<close>: an instance of \<open>Iterable\<close> with \<open>list(x) = xl\<close>. The code rebinds \<open>x\<close> to
    that list, so the later test \<open>type(x) is Graph\<close> is made on a list and fails, whatever the
    class of the element was.
  \<^item> \<open>GraphObject d\<close>: not iterable and of type exactly \<open>Graph\<close>;
    \<open>d\<close> is what \<open>x.get_labels(purpose="any")\<close> returns.
  \<^item> \<open>GraphSubclassObject d\<close>: not iterable, an instance of a proper subclass of \<open>Graph\<close>
    (so \<open>type(x) is Graph\<close> is false); it inherits \<open>get_labels\<close>.
  \<^item> \<open>OtherObject\<close>: any other object that is not iterable.

  The items of an iterable are Python objects. Only the item at index 1 is used, as the
  argument of \<open>inv_dict\<close>.
\<close>

text \<open>
  \<open>PyDict d\<close> is an item that is a node-label mapping. \<open>PyOther v\<close> is any other object (a
  graph structure, edge labels, a key of a dictionary) on which \<open>inv_dict\<close> returns, and
  \<open>v\<close> is the dictionary that it returns.
\<close>

datatype ('n, 'l) pyobj = PyDict "('n, 'l) dict" | PyOther "('l, 'n list) dict"

text \<open>
  Modelled from the spec: the call \<open>inv_dict(obj)\<close> on an item of an iterable; \<open>inv_dict\<close> is
  absent. The specification describes it on node-label mappings only, where it returns the
  grouping above, and names no exception of it. On any other object the model does not
  choose the result: the object carries the dictionary returned, and every theorem holds
  whatever that dictionary is. An object on which \<open>inv_dict\<close> would raise is not
  represented.
\<close>

definition call_inv_dict :: "('n, 'l) pyobj \<Rightarrow> ('l, 'n list) dict" where
  "call_inv_dict obj = (case obj of PyDict d \<Rightarrow> inv_dict d | PyOther v \<Rightarrow> v)"

text \<open>
  Modelled from the spec: the class \<open>Graph\<close> of \<open>grakel.graph\<close> is imported by the module and
  is not among the sources. The specification presents graph objects and positional
  iterables as the two alternatives of an element, and the capability
  \<open>get_labels(purpose)\<close> of a graph object as returning a mapping from nodes to labels. So a
  graph object is not iterable and carries that mapping.
\<close>

datatype ('n, 'l) element =
    Iterable "('n, 'l) pyobj list"
  | GraphObject "('n, 'l) dict"
  | GraphSubclassObject "('n, 'l) dict"
  | OtherObject

text \<open>
  The three \<open>raise\<close> statements of \<open>parse_input\<close> all raise \<open>ValueError\<close>, told apart by their
  message.
\<close>

datatype error = ValueError string

datatype ('n, 'l) outcome = Skip string | Append "('l, 'n list) dict" | Raise error

definition is_iter :: "('n, 'l) element \<Rightarrow> bool" where
  "is_iter x = (case x of Iterable xl \<Rightarrow> True | _ \<Rightarrow> False)"

definition as_list :: "('n, 'l) element \<Rightarrow> ('n, 'l) pyobj list" where
  "as_list x = (case x of Iterable xl \<Rightarrow> xl | _ \<Rightarrow> [])"

definition type_is_Graph :: "('n, 'l) element \<Rightarrow> bool" where
  "type_is_Graph x = (case x of GraphObject d \<Rightarrow> True | _ \<Rightarrow> False)"

definition get_labels :: "('n, 'l) element \<Rightarrow> ('n, 'l) dict" where
  "get_labels x = (case x of GraphObject d \<Rightarrow> d | GraphSubclassObject d \<Rightarrow> d | _ \<Rightarrow> [])"

text \<open>\<open>str(i)\<close> for an index: the decimal digits of a natural number.\<close>

definition digit_char :: "nat \<Rightarrow> char" where
  "digit_char d = ''0123456789'' ! d"

fun str_nat :: "nat \<Rightarrow> string" where
  "str_nat n = (if n < 10 then [digit_char n] else str_nat (n div 10) @ [digit_char (n mod 10)])"

definition empty_warning :: "nat \<Rightarrow> string" where
  "empty_warning i = ''Ignoring empty element'' @ '' on index: '' @ str_nat i"

definition not_iterable_message :: string where
  "not_iterable_message = ''input must be an iterable'' @ [CHR 0x0A]"

definition malformed_message :: string where
  "malformed_message =
     ''each element of X must be either a '' @ ''graph object or a list with at least '' @
     ''a graph like object and node labels '' @ ''dict '' @ [CHR 0x0A]"

definition empty_message :: string where
  "empty_message = ''parsed input is empty''"

text \<open>
  The body of the loop for the element \<open>x\<close> at index \<open>i\<close>:
  \<^verbatim>\<open>
  is_iter = isinstance(x, collections.Iterable)
  if is_iter:
      x = list(x)
  if is_iter and len(x) in [0, 2, 3]:
      if len(x) == 0:
          warnings.warn('Ignoring empty element' + ' on index: '+str(i))
          continue
      else:
          invL = inv_dict(x[1])
  elif type(x) is Graph:
      invL = inv_dict(x.get_labels(purpose="any"))
  else:
      raise ValueError('each element of X must be ...')
  Xp.append(invL)
  \<close>
  Its outcome is \<open>Skip w\<close> (the warning \<open>w\<close> is emitted and the loop continues), \<open>Append invL\<close>
  or \<open>Raise e\<close>.
\<close>

definition process_element :: "nat \<Rightarrow> ('n, 'l) element \<Rightarrow> ('n, 'l) outcome" where
  "process_element i x =
     (let xl = as_list x in
      if is_iter x \<and> length xl \<in> set [0, 2, 3] then
        (if length xl = 0 then Skip (empty_warning i)
         else Append (call_inv_dict (xl ! 1)))
      else if \<not> is_iter x \<and> type_is_Graph x then Append (inv_dict (get_labels x))
      else Raise (ValueError malformed_message))"

text \<open>
  The loop over \<open>enumerate(iter(X))\<close>, with the list \<open>Xp\<close> built so far and the warnings
  emitted so far. It returns the warnings together with either the exception that ended
  the loop or the final \<open>Xp\<close>.
\<close>

fun parse_loop ::
  "(nat \<times> ('n, 'l) element) list \<Rightarrow> ('l, 'n list) dict list \<Rightarrow> string list \<Rightarrow>
   string list \<times> (error + ('l, 'n list) dict list)" where
  "parse_loop [] Xp ws = (ws, Inr Xp)"
| "parse_loop ((i, x) # rest) Xp ws =
     (case process_element i x of
        Skip w \<Rightarrow> parse_loop rest Xp (ws @ [w])
      | Append invL \<Rightarrow> parse_loop rest (Xp @ [invL]) ws
      | Raise e \<Rightarrow> (ws, Inl e))"

text \<open>
  The argument of \<open>parse_input\<close> is either not an \<open>Iterable\<close> or the sequence of its elements.
\<close>

datatype ('n, 'l) pyinput = NonIterableInput | IterableInput "('n, 'l) element list"

definition parse_input ::
  "('n, 'l) pyinput \<Rightarrow> string list \<times> (error + ('l, 'n list) dict list)" where
  "parse_input X =
     (case X of
        NonIterableInput \<Rightarrow> ([], Inl (ValueError not_iterable_message))
      | IterableInput xs \<Rightarrow>
          (case parse_loop (enumerate 0 xs) [] [] of
             (ws, Inl e) \<Rightarrow> (ws, Inl e)
           | (ws, Inr Xp) \<Rightarrow>
               if length Xp = 0 then (ws, Inl (ValueError empty_message))
               else (ws, Inr Xp)))"

subsection \<open>\<open>fit_transform\<close>\<close>

text \<open>
  Modelled from the spec: the class \<open>kernel\<close> of \<open>grakel.kernels\<close>, from which \<open>subtree_wl\<close>
  inherits \<open>fit\<close>, \<open>transform\<close> and \<open>fit_transform\<close>, is imported by the module and is not
  among the sources. By the specification, \<open>fit\<close> parses its input, computes the score of
  each summary with itself and the full symmetric matrix of the pairwise scores, the upper
  triangle computed and mirrored to the lower one, and \<open>fit_transform\<close> returns that matrix.
  With the option \<open>normalize\<close> every entry \<open>K[i,j]\<close> is rescaled to
  \<open>K[i,j] / sqrt(d_i * d_j)\<close>, where \<open>d_i\<close> is the score of the summary \<open>i\<close> with itself, and
  a zero self-similarity is a \<open>DegenerateGraphError\<close>. An error of the parser or of a
  pairwise score passes through: \<open>ParseError\<close> carries the first, \<open>KeyError\<close> is the second.
\<close>

datatype fit_error = ParseError error | KeyError | DegenerateGraphError

definition self_scores :: "('l, 'n list) dict list \<Rightarrow> int option list" where
  "self_scores gs = map (\<lambda>g. pairwise_operation g g) gs"

definition score_matrix :: "('l, 'n list) dict list \<Rightarrow> int option list list" where
  "score_matrix gs =
     map (\<lambda>i. map (\<lambda>j. if i \<le> j then pairwise_operation (gs ! i) (gs ! j)
                         else pairwise_operation (gs ! j) (gs ! i))
                [0..<length gs])
         [0..<length gs]"

definition rescale :: "int list \<Rightarrow> int list list \<Rightarrow> real list list" where
  "rescale d K =
     map (\<lambda>i. map (\<lambda>j. real_of_int (K ! i ! j) / sqrt (real_of_int (d ! i) * real_of_int (d ! j)))
                [0..<length K])
         [0..<length K]"

text \<open>
  Modelled from the spec: \<open>fit_transform\<close>, absent with its class, as the parse of the input
  followed by the matrix of the scores, rescaled when \<open>normalize\<close> is set.
\<close>

definition fit_transform :: "bool \<Rightarrow> ('n, 'l) pyinput \<Rightarrow> fit_error + real list list" where
  "fit_transform do_normalize X =
     (case snd (parse_input X) of
        Inl e \<Rightarrow> Inl (ParseError e)
      | Inr gs \<Rightarrow>
          (case (those (self_scores gs), those (map those (score_matrix gs))) of
             (Some d, Some K) \<Rightarrow>
               if do_normalize
               then (if 0 \<in> set d then Inl DegenerateGraphError else Inr (rescale d K))
               else Inr (map (map real_of_int) K)
           | _ \<Rightarrow> Inl KeyError))"

section \<open>Notions of the specification\<close>

subsection \<open>Scores\<close>

text \<open>
  \<open>bucket_size d l\<close> is the number of nodes that \<open>d\<close> files under the label \<open>l\<close>, zero for a
  label that is not a key. \<open>shared_label_sum\<close> is the closed form of the specification: the
  sum, over the labels that are keys of both dictionaries, of the product of the two bucket
  sizes. \<open>node_pair_count\<close> is the double sum of the class documentation,
  \<open>k(X,Y) = \<Sum>v\<in>V1. \<Sum>u\<in>V2. \<delta>(l(v), l(u))\<close>, over the nodes that the two dictionaries list with
  their labels. \<open>squared_bucket_sum\<close> is the sum of the squared bucket sizes.
\<close>

definition bucket_size :: "('l, 'n list) dict \<Rightarrow> 'l \<Rightarrow> int" where
  "bucket_size d l = (case map_of d l of None \<Rightarrow> 0 | Some ns \<Rightarrow> int (length ns))"

definition shared_label_sum :: "('l, 'n list) dict \<Rightarrow> ('l, 'n list) dict \<Rightarrow> int" where
  "shared_label_sum a b =
     (\<Sum>l \<in> set (dict_keys a) \<inter> set (dict_keys b). bucket_size a l * bucket_size b l)"

definition labelled_nodes :: "('l, 'n list) dict \<Rightarrow> ('n \<times> 'l) list" where
  "labelled_nodes d = concat (map (\<lambda>(l, ns). map (\<lambda>n. (n, l)) ns) d)"

definition delta :: "'l \<Rightarrow> 'l \<Rightarrow> int" where
  "delta l l' = (if l = l' then 1 else 0)"

definition node_pair_count :: "('l, 'n list) dict \<Rightarrow> ('l, 'n list) dict \<Rightarrow> int" where
  "node_pair_count a b =
     sum_list (map (\<lambda>(v, lv). sum_list (map (\<lambda>(u, lu). delta lv lu) (labelled_nodes b)))
       (labelled_nodes a))"

definition squared_bucket_sum :: "('l, 'n list) dict \<Rightarrow> int" where
  "squared_bucket_sum a = (\<Sum>l \<in> set (dict_keys a). (bucket_size a l)\<^sup>2)"

text \<open>
  Two dictionaries have the same shape when they have the same keys and, under each key,
  buckets of the same length. The node identifiers in the buckets, and even their type, may
  differ.
\<close>

definition same_shape :: "('l, 'n list) dict \<Rightarrow> ('l, 'm list) dict \<Rightarrow> bool" where
  "same_shape a a' =
     (set (dict_keys a) = set (dict_keys a') \<and>
      (\<forall>l \<in> set (dict_keys a).
         map_option length (dict_getitem a l) = map_option length (dict_getitem a' l)))"

subsection \<open>Elements of the input\<close>

text \<open>
  An element is empty when it is an iterable of length 0. An element is rejected when it
  takes the last branch of the loop body: it is neither an iterable of length 0, 2 or 3 nor
  an object of type exactly \<open>Graph\<close>. \<open>summary_of x\<close> is the dictionary that the loop appends
  for the element \<open>x\<close>, if it appends one.
\<close>

definition is_empty_elem :: "('n, 'l) element \<Rightarrow> bool" where
  "is_empty_elem x = (is_iter x \<and> length (as_list x) = 0)"

definition rejected :: "('n, 'l) element \<Rightarrow> bool" where
  "rejected x =
     (\<not> (is_iter x \<and> (length (as_list x) = 0 \<or> length (as_list x) = 2 \<or> length (as_list x) = 3))
      \<and> \<not> type_is_Graph x)"

definition summary_of :: "('n, 'l) element \<Rightarrow> ('l, 'n list) dict option" where
  "summary_of x =
     (case x of
        Iterable xl \<Rightarrow>
          (if length xl = 2 \<or> length xl = 3 then Some (call_inv_dict (xl ! 1)) else None)
      | GraphObject d \<Rightarrow> Some (inv_dict d)
      | GraphSubclassObject d \<Rightarrow> None
      | OtherObject \<Rightarrow> None)"

text \<open>
  \<open>node_labels_of x\<close> is the node-label mapping that the element \<open>x\<close> supplies: the second
  item of an iterable of length 2 or 3 when that item is a mapping, and the result of
  \<open>get_labels\<close> for an object of type exactly \<open>Graph\<close>; no other element supplies one. A raw
  tuple is an iterable that supplies one. \<open>has_node_labels x\<close> says that \<open>x\<close> is not an
  iterable of length 2 or 3 whose second item is something else than a mapping.
\<close>

definition node_labels_of :: "('n, 'l) element \<Rightarrow> ('n, 'l) dict option" where
  "node_labels_of x =
     (case x of
        Iterable xl \<Rightarrow>
          (if length xl = 2 \<or> length xl = 3
           then (case xl ! 1 of PyDict d \<Rightarrow> Some d | PyOther v \<Rightarrow> None)
           else None)
      | GraphObject d \<Rightarrow> Some d
      | GraphSubclassObject d \<Rightarrow> None
      | OtherObject \<Rightarrow> None)"

definition raw_tuple :: "('n, 'l) element \<Rightarrow> bool" where
  "raw_tuple x = (is_iter x \<and> node_labels_of x \<noteq> None)"

definition has_node_labels :: "('n, 'l) element \<Rightarrow> bool" where
  "has_node_labels x =
     (case x of
        Iterable xl \<Rightarrow>
          (if length xl = 2 \<or> length xl = 3
           then (case xl ! 1 of PyDict d \<Rightarrow> True | PyOther v \<Rightarrow> False)
           else True)
      | _ \<Rightarrow> True)"

text \<open>
  A graph object, in the words of the specification, is an already constructed object that
  exposes the label lookup \<open>get_labels\<close>: an instance of \<open>Graph\<close>, of the class itself or of a
  subclass. An element is malformed, in the words of the specification, when it is not an
  iterable of length 0, 2 or 3 and is not a graph object.
\<close>

definition is_graph_object :: "('n, 'l) element \<Rightarrow> bool" where
  "is_graph_object x =
     (case x of GraphObject d \<Rightarrow> True | GraphSubclassObject d \<Rightarrow> True | _ \<Rightarrow> False)"

definition malformed_element :: "('n, 'l) element \<Rightarrow> bool" where
  "malformed_element x =
     (\<not> (is_iter x \<and> (length (as_list x) = 0 \<or> length (as_list x) = 2 \<or> length (as_list x) = 3))
      \<and> \<not> is_graph_object x)"

text \<open>
  \<open>loop_result\<close> is the loop of \<open>parse_input\<close> without its warnings: the list \<open>Xp\<close> after the
  last element, or the exception that ended the loop. The outcome of an element depends on
  its index only through the text of a warning, so the index is fixed to 0 here; the lemma
  \<open>snd_parse_loop\<close> below shows that this is the second component of \<open>parse_loop\<close>.
\<close>

fun loop_result ::
  "('n, 'l) element list \<Rightarrow> ('l, 'n list) dict list \<Rightarrow> error + ('l, 'n list) dict list" where
  "loop_result [] Xp = Inr Xp"
| "loop_result (x # xs) Xp =
     (case process_element 0 x of
        Skip w \<Rightarrow> loop_result xs Xp
      | Append invL \<Rightarrow> loop_result xs (Xp @ [invL])
      | Raise e \<Rightarrow> Inl e)"

text \<open>
  The double sum of the class documentation taken over two node-label mappings: the number
  of pairs of one entry of each mapping with equal labels.
\<close>

definition label_pair_count :: "('n, 'l) dict \<Rightarrow> ('m, 'l) dict \<Rightarrow> int" where
  "label_pair_count d1 d2 =
     sum_list (map (\<lambda>(v, lv). sum_list (map (\<lambda>(u, lu). delta lv lu) d2)) d1)"

subsection \<open>Gram matrices\<close>

text \<open>
  The quadratic form of a square matrix \<open>K\<close> at a vector \<open>c\<close> (a function from indices to
  reals), and the statement that \<open>lam\<close> is an eigenvalue of \<open>K\<close> with the eigenvector \<open>v\<close>:
  \<open>v\<close> is not zero on the indices of \<open>K\<close> and \<open>K v = lam v\<close>.
\<close>

definition quadratic_form :: "real list list \<Rightarrow> (nat \<Rightarrow> real) \<Rightarrow> real" where
  "quadratic_form K c = (\<Sum>i<length K. \<Sum>j<length K. c i * (K ! i ! j) * c j)"

definition eigenpair :: "real list list \<Rightarrow> real \<Rightarrow> (nat \<Rightarrow> real) \<Rightarrow> bool" where
  "eigenpair K lam v =
     ((\<exists>i\<in>{..<length K}. v i \<noteq> 0) \<and>
      (\<forall>i\<in>{..<length K}. (\<Sum>j<length K. K ! i ! j * v j) = lam * v i))"

section \<open>Properties of \<open>pairwise_operation\<close>\<close>

subsection \<open>The sum never raises and equals the closed form\<close>

lemma py_sum_Some: "py_sum acc (map Some vs) = Some (acc + sum_list vs)"
proof (induction vs arbitrary: acc)
  case Nil
  show ?case by simp
next
  case (Cons v vs)
  have "py_sum acc (map Some (v # vs)) = py_sum (acc + v) (map Some vs)" by simp
  also have "\<dots> = Some (acc + v + sum_list vs)" by (rule Cons.IH)
  finally show ?case by (simp add: add.assoc)
qed

lemma dict_getitem_key:
  "x \<in> set (dict_keys d) \<Longrightarrow> \<exists>v. dict_getitem d x = Some v"
  unfolding dict_keys_def dict_getitem_def
  by (induction d) auto


lemma product_term_Some:
  assumes "x \<in> set (dict_keys ls)" and "dict_contains lb x"
  shows "product_term ls lb x = Some (bucket_size ls x * bucket_size lb x)"
proof -
  obtain ns where ns: "dict_getitem ls x = Some ns"
    using dict_getitem_key[OF assms(1)] by (rule exE)
  have mem: "x \<in> set (dict_keys lb)"
    using assms(2) by (simp add: dict_contains_def)
  obtain ms where ms: "dict_getitem lb x = Some ms"
    using dict_getitem_key[OF mem] by (rule exE)
  show ?thesis
    using ns ms by (simp add: product_term_def dict_getitem_def bucket_size_def)
qed

lemma kernel_sum_list:
  "kernel_sum ls lb =
     Some (sum_list (map (\<lambda>x. bucket_size ls x * bucket_size lb x)
                         (filter (dict_contains lb) (dict_keys ls))))"
proof -
  have "map (product_term ls lb) (filter (dict_contains lb) (dict_keys ls)) =
        map Some (map (\<lambda>x. bucket_size ls x * bucket_size lb x)
                      (filter (dict_contains lb) (dict_keys ls)))"
    by (simp add: product_term_Some)
  then have "kernel_sum ls lb =
        py_sum 0 (map Some (map (\<lambda>x. bucket_size ls x * bucket_size lb x)
                      (filter (dict_contains lb) (dict_keys ls))))"
    by (simp only: kernel_sum_def)
  then show ?thesis
    by (simp only: py_sum_Some add_0)
qed


lemma kernel_sum_shared:
  assumes "wf_dict ls"
  shows "kernel_sum ls lb = Some (shared_label_sum ls lb)"
proof -
  let ?f = "\<lambda>x. bucket_size ls x * bucket_size lb x"
  let ?xs = "filter (dict_contains lb) (dict_keys ls)"
  have d: "distinct ?xs"
    using assms by (simp add: wf_dict_def)
  have s: "set ?xs = set (dict_keys ls) \<inter> set (dict_keys lb)"
    by (auto simp: dict_contains_def)
  have "sum_list (map ?f ?xs) = sum ?f (set ?xs)"
    using sum.distinct_set_conv_list[OF d, of ?f] by simp
  then show ?thesis
    by (simp only: kernel_sum_list shared_label_sum_def s)
qed

lemma shared_label_sum_commute: "shared_label_sum a b = shared_label_sum b a"
  by (simp add: shared_label_sum_def Int_commute mult.commute)

lemma pairwise_operation_shared:
  assumes "wf_dict a" and "wf_dict b"
  shows "pairwise_operation a b = Some (shared_label_sum a b)"
proof (cases "dict_len a < dict_len b")
  case True
  then show ?thesis
    by (simp add: pairwise_operation_def kernel_sum_shared[OF assms(1)])
next
  case False
  then have "pairwise_operation a b = Some (shared_label_sum b a)"
    by (simp add: pairwise_operation_def kernel_sum_shared[OF assms(2)])
  then show ?thesis
    by (simp only: shared_label_sum_commute[of a b])
qed


lemma bucket_size_absent:
  "l \<notin> set (dict_keys d) \<Longrightarrow> bucket_size d l = 0"
proof -
  assume "l \<notin> set (dict_keys d)"
  then have "map_of d l = None"
    by (simp add: dict_keys_def map_of_eq_None_iff)
  then show ?thesis by (simp add: bucket_size_def)
qed

lemma bucket_size_present:
  assumes "wf_dict d" and "(l, ns) \<in> set d"
  shows "bucket_size d l = int (length ns)"
proof -
  have "map_of d l = Some ns"
    using assms by (simp add: wf_dict_def dict_keys_def)
  then show ?thesis by (simp add: bucket_size_def)
qed

lemma delta_row:
  "sum_list (map (\<lambda>(u, lu). delta l lu) (labelled_nodes b)) =
   sum_list (map (\<lambda>(l', ms). if l = l' then int (length ms) else 0) b)"
proof (induction b)
  case Nil
  show ?case by (simp add: labelled_nodes_def)
next
  case (Cons p b)
  obtain l' ms where p: "p = (l', ms)" by (cases p)
  have "sum_list (map (\<lambda>(u, lu). delta l lu) (map (\<lambda>n. (n, l')) ms)) =
        (if l = l' then int (length ms) else 0)"
    by (induction ms) (simp_all add: delta_def)
  then show ?case
    using Cons.IH by (simp add: labelled_nodes_def p)
qed

lemma matching_buckets_absent:
  "l \<notin> set (dict_keys b) \<Longrightarrow>
   sum_list (map (\<lambda>(l', ms). if l = l' then int (length ms) else 0) b) = 0"
  by (induction b) (auto simp: dict_keys_def)

lemma matching_buckets:
  "wf_dict b \<Longrightarrow>
   sum_list (map (\<lambda>(l', ms). if l = l' then int (length ms) else 0) b) = bucket_size b l"
proof (induction b)
  case Nil
  show ?case by (simp add: bucket_size_def)
next
  case (Cons p b)
  obtain l' ms where p: "p = (l', ms)" by (cases p)
  from Cons.prems have wf: "wf_dict b" and fresh: "l' \<notin> set (dict_keys b)"
    by (simp_all add: wf_dict_def dict_keys_def p)
  show ?case
  proof (cases "l = l'")
    case True
    then show ?thesis
      using matching_buckets_absent[OF fresh] by (simp add: p bucket_size_def)
  next
    case False
    then show ?thesis
      using Cons.IH[OF wf] by (simp add: p bucket_size_def)
  qed
qed

lemma node_pair_count_rows:
  "node_pair_count a b =
   sum_list (map (\<lambda>(l, ns). int (length ns) *
       sum_list (map (\<lambda>(u, lu). delta l lu) (labelled_nodes b))) a)"
proof -
  have row: "sum_list (map (\<lambda>(v, lv). f lv) (map (\<lambda>n. (n, l)) ns)) = int (length ns) * f l"
    for f :: "'a \<Rightarrow> int" and l and ns :: "'b list"
    by (induction ns) (simp_all add: algebra_simps)
  have "sum_list (map (\<lambda>(v, lv). f lv) (labelled_nodes a)) =
        sum_list (map (\<lambda>(l, ns). int (length ns) * f l) a)" for f :: "'a \<Rightarrow> int"
  proof (induction a)
    case Nil
    show ?case by (simp add: labelled_nodes_def)
  next
    case (Cons p a)
    obtain l ns where p: "p = (l, ns)" by (cases p)
    show ?case
      using Cons.IH row[of f l ns] by (simp add: labelled_nodes_def p)
  qed
  then show ?thesis
    by (simp only: node_pair_count_def)
qed


lemma node_pair_count_shared:
  assumes "wf_dict a" and "wf_dict b"
  shows "node_pair_count a b = shared_label_sum a b"
proof -
  let ?g = "\<lambda>l. bucket_size a l * bucket_size b l"
  have "node_pair_count a b =
        sum_list (map (\<lambda>(l, ns). int (length ns) * bucket_size b l) a)"
    by (simp only: node_pair_count_rows delta_row matching_buckets[OF assms(2)])
  also have "\<dots> = sum_list (map (\<lambda>(l, ns). ?g l) a)"
  proof -
    have "(case p of (l, ns) \<Rightarrow> int (length ns) * bucket_size b l) =
          (case p of (l, ns) \<Rightarrow> ?g l)" if "p \<in> set a" for p
    proof -
      obtain l ns where p: "p = (l, ns)" by (cases p)
      show ?thesis
        using bucket_size_present[OF assms(1), of l ns] that by (simp add: p)
    qed
    then show ?thesis
      by (simp cong: map_cong)
  qed
  also have "\<dots> = sum_list (map ?g (dict_keys a))"
    by (simp add: dict_keys_def comp_def case_prod_unfold)
  also have "\<dots> = sum ?g (set (dict_keys a))"
    using sum.distinct_set_conv_list[of "dict_keys a" ?g] assms(1)
    by (simp add: wf_dict_def)
  also have "\<dots> = sum ?g (set (dict_keys a) \<inter> set (dict_keys b))"
  proof (rule sum.mono_neutral_right)
    show "finite (set (dict_keys a))" by simp
    show "set (dict_keys a) \<inter> set (dict_keys b) \<subseteq> set (dict_keys a)" by simp
    show "\<forall>i\<in>set (dict_keys a) - set (dict_keys a) \<inter> set (dict_keys b). ?g i = 0"
      by (simp add: bucket_size_absent)
  qed
  finally show ?thesis
    by (simp only: shared_label_sum_def)
qed

lemma shared_label_sum_nonneg: "0 \<le> shared_label_sum a b"
  unfolding shared_label_sum_def
  by (rule sum_nonneg) (simp add: bucket_size_def split: option.split)


lemma same_shape_bucket_size:
  assumes "same_shape a a'" and "l \<in> set (dict_keys a)"
  shows "bucket_size a l = bucket_size a' l"
proof -
  have "map_option length (map_of a l) = map_option length (map_of a' l)"
    using assms by (simp add: same_shape_def dict_getitem_def)
  then show ?thesis
    by (cases "map_of a l"; cases "map_of a' l") (simp_all add: bucket_size_def)
qed

lemma same_shape_keys: "same_shape a a' \<Longrightarrow> set (dict_keys a) = set (dict_keys a')"
  by (simp add: same_shape_def)

subsection \<open>The claims about \<open>pairwise_operation\<close>\<close>

text \<open>
  Claim C1. For all well-formed inverted label dictionaries \<open>a\<close> and \<open>b\<close>,
  \<open>pairwise_operation a b\<close> returns (no lookup raises) the sum, over the labels that are
  keys of both, of the product of the two bucket sizes. This closed form equals the double
  sum that counts the pairs of one node of each graph with equal labels. For the summaries
  \<open>{'x': [0, 1], 'y': [2]}\<close> and \<open>{'x': [0], 'z': [1]}\<close> the score is 2.
\<close>

theorem pairwise_operation_label_intersection:
  assumes "wf_dict a" and "wf_dict b"
  shows "pairwise_operation a b = Some (shared_label_sum a b) \<and>
         shared_label_sum a b = node_pair_count a b \<and>
         pairwise_operation [(''x'', [0::nat, 1]), (''y'', [2])] [(''x'', [0]), (''z'', [1])] = Some 2"
proof (intro conjI)
  show "pairwise_operation a b = Some (shared_label_sum a b)"
    using assms by (rule pairwise_operation_shared)
  show "shared_label_sum a b = node_pair_count a b"
    using node_pair_count_shared[OF assms] by simp
  show "pairwise_operation [(''x'', [0::nat, 1]), (''y'', [2])] [(''x'', [0]), (''z'', [1])] = Some 2"
    by (simp add: pairwise_operation_def dict_len_def kernel_sum_def dict_keys_def
        dict_contains_def product_term_def dict_getitem_def)
qed

theorem pairwise_operation_label_intersection_witness:
  "wf_dict [(''x'', [0::nat, 1]), (''y'', [2])] \<and> wf_dict [(''x'', [0::nat]), (''z'', [1])] \<and>
   pairwise_operation [(''x'', [0::nat, 1]), (''y'', [2])] [(''x'', [0]), (''z'', [1])] =
     Some (node_pair_count [(''x'', [0::nat, 1]), (''y'', [2])] [(''x'', [0::nat]), (''z'', [1])]) \<and>
   node_pair_count [(''x'', [0::nat, 1]), (''y'', [2])] [(''x'', [0::nat]), (''z'', [1])] = 2"
proof -
  have wa: "wf_dict [(''x'', [0::nat, 1]), (''y'', [2])]"
    by (simp add: wf_dict_def dict_keys_def)
  have wb: "wf_dict [(''x'', [0::nat]), (''z'', [1])]"
    by (simp add: wf_dict_def dict_keys_def)
  have n: "node_pair_count [(''x'', [0::nat, 1]), (''y'', [2])] [(''x'', [0::nat]), (''z'', [1])] = 2"
    by (simp add: node_pair_count_def labelled_nodes_def delta_def)
  show ?thesis
    using pairwise_operation_label_intersection[OF wa wb] wa wb n by simp
qed

text \<open>
  Claim C2. For all well-formed inverted label dictionaries \<open>a\<close> and \<open>b\<close>, the score of
  \<open>a\<close> and \<open>b\<close> is the score of \<open>b\<close> and \<open>a\<close>. Moreover the sum taken over the keys of
  \<open>a\<close> (looking each up in \<open>b\<close>) equals the sum taken over the keys of \<open>b\<close>: which
  dictionary is iterated does not change the result.
\<close>

theorem pairwise_operation_commutes:
  assumes "wf_dict a" and "wf_dict b"
  shows "pairwise_operation a b = pairwise_operation b a \<and> kernel_sum a b = kernel_sum b a"
proof -
  have "kernel_sum a b = kernel_sum b a"
    by (simp only: kernel_sum_shared[OF assms(1)] kernel_sum_shared[OF assms(2)]
        shared_label_sum_commute[of a b])
  moreover have "pairwise_operation a b = pairwise_operation b a"
    by (simp only: pairwise_operation_shared[OF assms] pairwise_operation_shared[OF assms(2) assms(1)]
        shared_label_sum_commute[of a b])
  ultimately show ?thesis by simp
qed

theorem pairwise_operation_commutes_witness:
  "wf_dict [(''a'', [0::nat, 1, 2]), (''b'', [3])] \<and>
   wf_dict [(''b'', [0::nat, 1]), (''a'', [2]), (''c'', [3])] \<and>
   pairwise_operation [(''a'', [0::nat, 1, 2]), (''b'', [3])]
       [(''b'', [0::nat, 1]), (''a'', [2]), (''c'', [3])] =
     pairwise_operation [(''b'', [0::nat, 1]), (''a'', [2]), (''c'', [3])]
       [(''a'', [0::nat, 1, 2]), (''b'', [3])] \<and>
   kernel_sum [(''a'', [0::nat, 1, 2]), (''b'', [3])]
       [(''b'', [0::nat, 1]), (''a'', [2]), (''c'', [3])] =
     kernel_sum [(''b'', [0::nat, 1]), (''a'', [2]), (''c'', [3])]
       [(''a'', [0::nat, 1, 2]), (''b'', [3])] \<and>
   kernel_sum [(''b'', [0::nat, 1]), (''a'', [2]), (''c'', [3])]
       [(''a'', [0::nat, 1, 2]), (''b'', [3])] = Some 5"
proof -
  have wa: "wf_dict [(''a'', [0::nat, 1, 2]), (''b'', [3])]"
    by (simp add: wf_dict_def dict_keys_def)
  have wb: "wf_dict [(''b'', [0::nat, 1]), (''a'', [2]), (''c'', [3])]"
    by (simp add: wf_dict_def dict_keys_def)
  have v: "kernel_sum [(''b'', [0::nat, 1]), (''a'', [2]), (''c'', [3])]
       [(''a'', [0::nat, 1, 2]), (''b'', [3])] = Some 5"
    by (simp add: kernel_sum_def dict_keys_def dict_contains_def product_term_def
        dict_getitem_def)
  show ?thesis
    using pairwise_operation_commutes[OF wa wb] wa wb v by simp
qed

text \<open>
  Claim C6. For every well-formed inverted label dictionary \<open>a\<close>, the score of \<open>a\<close> with
  itself is returned, is not negative, and is the sum over all labels of the squared bucket
  size.
\<close>

theorem pairwise_operation_self:
  assumes "wf_dict a"
  shows "\<exists>s. pairwise_operation a a = Some s \<and> 0 \<le> s \<and> s = squared_bucket_sum a"
proof -
  have "shared_label_sum a a = squared_bucket_sum a"
    by (simp add: shared_label_sum_def squared_bucket_sum_def power2_eq_square)
  moreover have "pairwise_operation a a = Some (shared_label_sum a a)"
    using assms assms by (rule pairwise_operation_shared)
  moreover have "0 \<le> shared_label_sum a a"
    by (rule shared_label_sum_nonneg)
  ultimately show ?thesis by simp
qed

theorem pairwise_operation_self_witness:
  "wf_dict [(''x'', [0::nat, 1]), (''y'', [2])] \<and>
   pairwise_operation [(''x'', [0::nat, 1]), (''y'', [2])] [(''x'', [0::nat, 1]), (''y'', [2])] =
     Some (squared_bucket_sum [(''x'', [0::nat, 1]), (''y'', [2])]) \<and>
   squared_bucket_sum [(''x'', [0::nat, 1]), (''y'', [2])] = 5"
proof -
  have wa: "wf_dict [(''x'', [0::nat, 1]), (''y'', [2])]"
    by (simp add: wf_dict_def dict_keys_def)
  have v: "squared_bucket_sum [(''x'', [0::nat, 1]), (''y'', [2])] = 5"
    by (simp add: squared_bucket_sum_def dict_keys_def bucket_size_def)
  show ?thesis
    using pairwise_operation_self[OF wa] wa v by auto
qed

text \<open>
  Claim C10. The score depends only on the keys and the bucket sizes of the two summaries,
  not on the node identifiers in the buckets: when \<open>a\<close> and \<open>a'\<close> have the same keys with
  buckets of equal length under each key, and likewise \<open>b\<close> and \<open>b'\<close>, the score of \<open>a\<close>
  and \<open>b\<close> is the score of \<open>a'\<close> and \<open>b'\<close>.
\<close>

theorem pairwise_operation_depends_on_shape_only:
  assumes "wf_dict a" and "wf_dict a'" and "wf_dict b" and "wf_dict b'"
    and "same_shape a a'" and "same_shape b b'"
  shows "pairwise_operation a b = pairwise_operation a' b'"
proof -
  have "shared_label_sum a b = shared_label_sum a' b'"
    unfolding shared_label_sum_def
  proof (rule sum.cong)
    show "set (dict_keys a) \<inter> set (dict_keys b) = set (dict_keys a') \<inter> set (dict_keys b')"
      using same_shape_keys[OF assms(5)] same_shape_keys[OF assms(6)] by simp
  next
    fix l assume "l \<in> set (dict_keys a') \<inter> set (dict_keys b')"
    then have "l \<in> set (dict_keys a)" and "l \<in> set (dict_keys b)"
      using same_shape_keys[OF assms(5)] same_shape_keys[OF assms(6)] by simp_all
    then show "bucket_size a l * bucket_size b l = bucket_size a' l * bucket_size b' l"
      using same_shape_bucket_size[OF assms(5)] same_shape_bucket_size[OF assms(6)] by simp
  qed
  then show ?thesis
    by (simp only: pairwise_operation_shared[OF assms(1) assms(3)]
        pairwise_operation_shared[OF assms(2) assms(4)])
qed

theorem pairwise_operation_depends_on_shape_only_witness:
  "wf_dict [(''x'', [0::nat, 1]), (''y'', [2])] \<and>
   wf_dict [(''y'', [7::nat]), (''x'', [5, 9])] \<and>
   wf_dict [(''x'', [0::nat]), (''z'', [1])] \<and>
   wf_dict [(''z'', [4::nat]), (''x'', [3])] \<and>
   same_shape [(''x'', [0::nat, 1]), (''y'', [2])] [(''y'', [7::nat]), (''x'', [5, 9])] \<and>
   same_shape [(''x'', [0::nat]), (''z'', [1])] [(''z'', [4::nat]), (''x'', [3])] \<and>
   pairwise_operation [(''x'', [0::nat, 1]), (''y'', [2])] [(''x'', [0::nat]), (''z'', [1])] =
     pairwise_operation [(''y'', [7::nat]), (''x'', [5, 9])] [(''z'', [4::nat]), (''x'', [3])]"
proof -
  have w1: "wf_dict [(''x'', [0::nat, 1]), (''y'', [2])]"
    and w2: "wf_dict [(''y'', [7::nat]), (''x'', [5, 9])]"
    and w3: "wf_dict [(''x'', [0::nat]), (''z'', [1])]"
    and w4: "wf_dict [(''z'', [4::nat]), (''x'', [3])]"
    by (simp_all add: wf_dict_def dict_keys_def)
  have s1: "same_shape [(''x'', [0::nat, 1]), (''y'', [2])] [(''y'', [7::nat]), (''x'', [5, 9])]"
    by (auto simp: same_shape_def dict_keys_def dict_getitem_def)
  have s2: "same_shape [(''x'', [0::nat]), (''z'', [1])] [(''z'', [4::nat]), (''x'', [3])]"
    by (auto simp: same_shape_def dict_keys_def dict_getitem_def)
  show ?thesis
    using pairwise_operation_depends_on_shape_only[OF w1 w2 w3 w4 s1 s2] w1 w2 w3 w4 s1 s2
    by simp
qed

section \<open>Properties of \<open>inv_dict\<close>\<close>

lemma dict_keys_add_node:
  "dict_keys (add_node l n acc) =
   (if l \<in> set (dict_keys acc) then dict_keys acc else dict_keys acc @ [l])"
proof (induction acc)
  case Nil
  show ?case by (simp add: dict_keys_def)
next
  case (Cons p acc)
  obtain k ns where p: "p = (k, ns)" by (cases p)
  show ?case
    using Cons.IH by (cases "k = l") (simp_all add: p dict_keys_def)
qed

lemma wf_add_node: "wf_dict acc \<Longrightarrow> wf_dict (add_node l n acc)"
  by (simp add: wf_dict_def dict_keys_add_node)

lemma mset_add_node:
  "mset (labelled_nodes (add_node l n acc)) = add_mset (n, l) (mset (labelled_nodes acc))"
  by (induction acc) (auto simp: labelled_nodes_def)

lemma foldl_add_node:
  "wf_dict acc \<Longrightarrow>
   wf_dict (foldl (\<lambda>acc (n, l). add_node l n acc) acc d) \<and>
   mset (labelled_nodes (foldl (\<lambda>acc (n, l). add_node l n acc) acc d)) =
     mset (labelled_nodes acc) + mset d"
proof (induction d arbitrary: acc)
  case Nil
  then show ?case by simp
next
  case (Cons p d)
  obtain n l where p: "p = (n, l)" by (cases p)
  from Cons.IH[OF wf_add_node[OF Cons.prems, of l n]]
  show ?case by (simp add: p mset_add_node)
qed

lemma inv_dict_wf: "wf_dict (inv_dict d)"
  using foldl_add_node[of "[]" d] by (simp add: inv_dict_def wf_dict_def dict_keys_def)

lemma inv_dict_nodes: "mset (labelled_nodes (inv_dict d)) = mset d"
  using foldl_add_node[of "[]" d]
  by (simp add: inv_dict_def wf_dict_def dict_keys_def labelled_nodes_def)

lemma sum_list_mset_cong:
  fixes f :: "'a \<Rightarrow> int"
  assumes "mset xs = mset ys"
  shows "sum_list (map f xs) = sum_list (map f ys)"
proof -
  have "sum_list (map f xs) = sum_mset (image_mset f (mset xs))"
    by (simp only: mset_map[symmetric] sum_mset_sum_list)
  also have "\<dots> = sum_mset (image_mset f (mset ys))"
    by (simp only: assms)
  also have "\<dots> = sum_list (map f ys)"
    by (simp only: mset_map[symmetric] sum_mset_sum_list)
  finally show ?thesis .
qed

lemma node_pair_count_inv_dict:
  "node_pair_count (inv_dict d1) (inv_dict d2) = label_pair_count d1 d2"
proof -
  have inner: "sum_list (map (\<lambda>(u, lu). delta lv lu) (labelled_nodes (inv_dict d2))) =
               sum_list (map (\<lambda>(u, lu). delta lv lu) d2)" for lv :: 'a
    by (rule sum_list_mset_cong) (rule inv_dict_nodes)
  have "node_pair_count (inv_dict d1) (inv_dict d2) =
        sum_list (map (\<lambda>(v, lv). sum_list (map (\<lambda>(u, lu). delta lv lu) d2))
          (labelled_nodes (inv_dict d1)))"
    by (simp only: node_pair_count_def inner)
  also have "\<dots> = sum_list (map (\<lambda>(v, lv). sum_list (map (\<lambda>(u, lu). delta lv lu) d2)) d1)"
    by (rule sum_list_mset_cong) (rule inv_dict_nodes)
  finally show ?thesis
    by (simp only: label_pair_count_def)
qed

section \<open>Properties of \<open>parse_input\<close>\<close>

subsection \<open>The outcome of one element\<close>

lemma process_element_eq:
  "process_element i x =
   (if is_empty_elem x then Skip (empty_warning i)
    else case summary_of x of
           Some v \<Rightarrow> Append v
         | None \<Rightarrow> Raise (ValueError malformed_message))"
proof (cases x)
  case (Iterable xl)
  consider "length xl = 0" | "length xl = 2" | "length xl = 3"
    | "length xl \<noteq> 0 \<and> length xl \<noteq> 2 \<and> length xl \<noteq> 3"
    by blast
  then show ?thesis
    by cases
       (simp_all add: Iterable process_element_def is_empty_elem_def summary_of_def
          is_iter_def as_list_def type_is_Graph_def)
qed (simp_all add: process_element_def is_empty_elem_def summary_of_def is_iter_def
      as_list_def type_is_Graph_def get_labels_def)

lemma rejected_iff: "rejected x = (\<not> is_empty_elem x \<and> summary_of x = None)"
  by (cases x)
     (auto simp: rejected_def is_empty_elem_def summary_of_def is_iter_def as_list_def
        type_is_Graph_def)

lemma empty_no_summary: "is_empty_elem x \<Longrightarrow> summary_of x = None"
  by (cases x) (simp_all add: is_empty_elem_def summary_of_def is_iter_def as_list_def)

lemma process_element_empty:
  "is_empty_elem x \<Longrightarrow> process_element i x = Skip (empty_warning i)"
  by (simp add: process_element_eq)

lemma process_element_rejected:
  "rejected x \<Longrightarrow> process_element i x = Raise (ValueError malformed_message)"
  by (simp add: process_element_eq rejected_iff)

lemma process_element_summary:
  "summary_of x = Some v \<Longrightarrow> process_element i x = Append v"
  using empty_no_summary[of x] by (auto simp: process_element_eq)

lemma node_labels_summary:
  "node_labels_of x = Some d \<Longrightarrow> summary_of x = Some (inv_dict d)"
proof (cases x)
  case (Iterable xl)
  assume a: "node_labels_of x = Some d"
  then have len: "length xl = 2 \<or> length xl = 3"
    by (simp add: node_labels_of_def Iterable split: if_splits)
  with a have "xl ! 1 = PyDict d"
    by (simp add: node_labels_of_def Iterable split: if_splits pyobj.splits)
  with len show ?thesis
    by (auto simp: summary_of_def Iterable call_inv_dict_def)
qed (simp_all add: node_labels_of_def summary_of_def)

lemma process_element_labels:
  "node_labels_of x = Some d \<Longrightarrow> process_element i x = Append (inv_dict d)"
  by (simp add: node_labels_summary process_element_summary)

lemma malformed_element_rejected: "malformed_element x \<Longrightarrow> rejected x"
  by (cases x)
     (simp_all add: malformed_element_def rejected_def is_graph_object_def type_is_Graph_def)

subsection \<open>The loop\<close>

lemma snd_parse_loop: "snd (parse_loop ps Xp ws) = loop_result (map snd ps) Xp"
proof (induction ps arbitrary: Xp ws)
  case Nil
  show ?case by simp
next
  case (Cons p ps)
  obtain i x where p: "p = (i, x)" by (cases p)
  show ?case
    using Cons.IH
    by (cases "summary_of x") (simp_all add: p process_element_eq)
qed

lemma fst_parse_loop:
  "fst (parse_loop ps Xp ws) =
   ws @ map (\<lambda>p. empty_warning (fst p))
          (filter (\<lambda>p. is_empty_elem (snd p)) (takeWhile (\<lambda>p. \<not> rejected (snd p)) ps))"
proof (induction ps arbitrary: Xp ws)
  case Nil
  show ?case by simp
next
  case (Cons p ps)
  obtain i x where p: "p = (i, x)" by (cases p)
  show ?case
    using Cons.IH
    by (cases "summary_of x") (simp_all add: p process_element_eq rejected_iff)
qed

lemma parse_input_result:
  "snd (parse_input (IterableInput X)) =
   (case loop_result X [] of
      Inl e \<Rightarrow> Inl e
    | Inr Xp \<Rightarrow> if length Xp = 0 then Inl (ValueError empty_message) else Inr Xp)"
proof -
  obtain ws r where run: "parse_loop (enumerate 0 X) [] [] = (ws, r)"
    by (cases "parse_loop (enumerate 0 X) [] []")
  have r: "loop_result X [] = r"
    using snd_parse_loop[of "enumerate 0 X" "[]" "[]"] by (simp add: run)
  show ?thesis
    unfolding r by (cases r) (simp_all add: parse_input_def run)
qed

lemma parse_input_warnings:
  "fst (parse_input (IterableInput X)) = fst (parse_loop (enumerate 0 X) [] [])"
proof -
  obtain ws r where run: "parse_loop (enumerate 0 X) [] [] = (ws, r)"
    by (cases "parse_loop (enumerate 0 X) [] []")
  show ?thesis
    by (cases r) (simp_all add: parse_input_def run)
qed

lemma loop_result_filter_empty:
  "loop_result (filter (\<lambda>x. \<not> is_empty_elem x) xs) Xp = loop_result xs Xp"
proof (induction xs arbitrary: Xp)
  case Nil
  show ?case by simp
next
  case (Cons x xs)
  show ?case
  proof (cases "is_empty_elem x")
    case True
    then show ?thesis
      using Cons.IH by (simp add: process_element_empty)
  next
    case False
    then show ?thesis
      using Cons.IH by (simp split: outcome.split)
  qed
qed

lemma loop_result_prefix:
  assumes "\<forall>x\<in>set pre. \<not> rejected x"
  shows "loop_result (pre @ rest) Xp = loop_result rest (Xp @ List.map_filter summary_of pre)"
  using assms
proof (induction pre arbitrary: Xp)
  case Nil
  show ?case by (simp add: map_filter_simps)
next
  case (Cons x pre)
  then have ok: "\<not> rejected x" and rest: "\<forall>x\<in>set pre. \<not> rejected x"
    by simp_all
  show ?case
  proof (cases "summary_of x")
    case None
    with ok have "is_empty_elem x" by (simp add: rejected_iff)
    then show ?thesis
      using Cons.IH[OF rest] None by (simp add: process_element_empty map_filter_simps)
  next
    case (Some v)
    then show ?thesis
      using Cons.IH[OF rest] by (simp add: process_element_summary map_filter_simps)
  qed
qed

lemma loop_result_rejected:
  assumes "rejected x"
  shows "loop_result (pre @ x # post) Xp = Inl (ValueError malformed_message)"
proof (induction pre arbitrary: Xp)
  case Nil
  show ?case by (simp add: process_element_rejected[OF assms])
next
  case (Cons y pre)
  show ?case
    using Cons.IH
    by (cases "summary_of y") (simp_all add: process_element_eq)
qed

lemma map_filter_all_Some:
  "(\<And>x. x \<in> set xs \<Longrightarrow> f x \<noteq> None) \<Longrightarrow> map f xs = map Some (List.map_filter f xs)"
  by (induction xs) (auto simp: map_filter_simps split: option.splits)

lemma loop_result_Inl:
  "loop_result xs Xp = Inl e \<Longrightarrow> e = ValueError malformed_message"
proof (induction xs arbitrary: Xp)
  case Nil
  then show ?case by simp
next
  case (Cons x xs)
  show ?case
    using Cons.prems Cons.IH
    by (cases "summary_of x") (auto simp: process_element_eq split: if_splits)
qed

lemma loop_result_Inr:
  "loop_result xs Xp = Inr Xp' \<Longrightarrow>
   length Xp' = length Xp + length (filter (\<lambda>x. \<not> is_empty_elem x) xs)"
proof (induction xs arbitrary: Xp)
  case Nil
  then show ?case by simp
next
  case (Cons x xs)
  show ?case
  proof (cases "is_empty_elem x")
    case True
    then show ?thesis
      using Cons.prems Cons.IH[of Xp] by (simp add: process_element_empty)
  next
    case False
    show ?thesis
    proof (cases "summary_of x")
      case None
      with False Cons.prems show ?thesis by (simp add: process_element_eq)
    next
      case (Some v)
      then show ?thesis
        using False Cons.prems Cons.IH[of "Xp @ [v]"]
        by (simp add: process_element_summary)
    qed
  qed
qed

section \<open>From \<open>parse_input\<close> to \<open>pairwise_operation\<close>\<close>

text \<open>
  The summaries that \<open>parse_input\<close> builds with \<open>inv_dict\<close> have one entry per key, so the
  theorems about \<open>pairwise_operation\<close> apply to them. On the inversions of two node-label
  mappings the score is the double sum of the class documentation over the entries of the
  mappings.
\<close>

lemma pairwise_operation_inv_dict:
  "pairwise_operation (inv_dict d1) (inv_dict d2) = Some (label_pair_count d1 d2)"
proof -
  have "pairwise_operation (inv_dict d1) (inv_dict d2) =
        Some (shared_label_sum (inv_dict d1) (inv_dict d2))"
    by (rule pairwise_operation_shared) (rule inv_dict_wf)+
  also have "shared_label_sum (inv_dict d1) (inv_dict d2) =
             node_pair_count (inv_dict d1) (inv_dict d2)"
    by (rule node_pair_count_shared[symmetric]) (rule inv_dict_wf)+
  finally show ?thesis
    by (simp only: node_pair_count_inv_dict)
qed

lemma summary_of_wf:
  assumes "has_node_labels x" and "summary_of x = Some v"
  shows "wf_dict v"
proof (cases x)
  case (Iterable xl)
  from assms(2) have len: "length xl = 2 \<or> length xl = 3"
    by (simp add: summary_of_def Iterable split: if_splits)
  with assms(1) obtain d where "xl ! 1 = PyDict d"
    by (cases "xl ! 1") (auto simp: has_node_labels_def Iterable)
  with len assms(2) have "v = inv_dict d"
    by (auto simp: summary_of_def Iterable call_inv_dict_def)
  then show ?thesis by (simp add: inv_dict_wf)
next
  case (GraphObject d)
  with assms(2) show ?thesis by (auto simp: summary_of_def inv_dict_wf)
next
  case (GraphSubclassObject d)
  with assms(2) show ?thesis by (simp add: summary_of_def)
next
  case OtherObject
  with assms(2) show ?thesis by (simp add: summary_of_def)
qed

lemma loop_result_wf:
  "loop_result xs Xp = Inr Xp' \<Longrightarrow> \<forall>x\<in>set xs. has_node_labels x \<Longrightarrow>
   \<forall>a\<in>set Xp. wf_dict a \<Longrightarrow> \<forall>a\<in>set Xp'. wf_dict a"
proof (induction xs arbitrary: Xp)
  case Nil
  then show ?case by simp
next
  case (Cons x xs)
  from Cons.prems(2) have hx: "has_node_labels x" and hxs: "\<forall>x\<in>set xs. has_node_labels x"
    by simp_all
  show ?case
  proof (cases "is_empty_elem x")
    case True
    with Cons.prems(1) have "loop_result xs Xp = Inr Xp'"
      by (simp add: process_element_empty)
    from Cons.IH[OF this hxs Cons.prems(3)] show ?thesis .
  next
    case False
    show ?thesis
    proof (cases "summary_of x")
      case None
      with False Cons.prems(1) show ?thesis by (simp add: process_element_eq)
    next
      case (Some v)
      with Cons.prems(1) have run: "loop_result xs (Xp @ [v]) = Inr Xp'"
        by (simp add: process_element_summary)
      have "\<forall>a\<in>set (Xp @ [v]). wf_dict a"
        using Cons.prems(3) summary_of_wf[OF hx Some] by simp
      from Cons.IH[OF run hxs this] show ?thesis .
    qed
  qed
qed

lemma parse_input_summaries_wf:
  assumes "snd (parse_input (IterableInput X)) = Inr Xp" and "\<forall>x\<in>set X. has_node_labels x"
  shows "\<forall>a\<in>set Xp. wf_dict a"
proof (cases "loop_result X []")
  case (Inl e)
  with assms(1) show ?thesis by (simp add: parse_input_result)
next
  case (Inr Xp')
  with assms(1) have "Xp' = Xp"
    by (simp add: parse_input_result split: if_splits)
  with loop_result_wf[OF Inr assms(2)] show ?thesis by simp
qed

section \<open>The claims about \<open>parse_input\<close>\<close>

text \<open>
  Claim C3, as the code has it. For every input sequence containing an element that is not
  an iterable of length 0, 2 or 3 and is not a graph object, \<open>parse_input\<close> raises the
  malformed-input error, the \<open>ValueError\<close> with the message
  \<open>each element of X must be either a graph object or a list with at least a graph like
  object and node labels dict\<close>, whatever stands before and after the element. The message
  is a constant: the error does not identify the index of the element.
\<close>

theorem parse_input_malformed_element:
  assumes "malformed_element x"
  shows "snd (parse_input (IterableInput (pre @ x # post))) = Inl (ValueError malformed_message)"
  by (simp add: parse_input_result loop_result_rejected[OF malformed_element_rejected[OF assms]])

theorem parse_input_malformed_element_witness:
  "malformed_element (Iterable [PyOther []] :: (nat, string) element) \<and>
   snd (parse_input (IterableInput
     [Iterable [PyOther [], PyDict [(0::nat, ''a'')]], Iterable [], Iterable [PyOther []],
      OtherObject])) =
   Inl (ValueError malformed_message)"
proof -
  have o: "malformed_element (Iterable [PyOther []] :: (nat, string) element)"
    by (simp add: malformed_element_def is_iter_def as_list_def is_graph_object_def)
  show ?thesis
    using parse_input_malformed_element[OF o,
        of "[Iterable [PyOther [], PyDict [(0::nat, ''a'')]], Iterable []]" "[OtherObject]"] o
    by simp
qed

text \<open>
  Claim C3, as stated, asks the error to identify the index of the offending element. It
  does not: parsing \<open>[{0: 'a'}]\<close>, where the offending element has index 0, and parsing
  \<open>[(), {0: 'a'}]\<close>, where it has index 1, raise the same \<open>ValueError\<close>, and its message
  contains neither digit. (The dictionary \<open>{0: 'a'}\<close> is an iterable whose list is its
  one key.)
\<close>

theorem parse_input_malformed_error_without_index:
  "snd (parse_input (IterableInput [Iterable [PyOther []] :: (nat, string) element])) =
     Inl (ValueError malformed_message) \<and>
   snd (parse_input (IterableInput [Iterable [], Iterable [PyOther []] :: (nat, string) element])) =
     Inl (ValueError malformed_message) \<and>
   malformed_message =
     ''each element of X must be either a graph object or a list with at least a graph like object and node labels dict '' @ [CHR 0x0A] \<and>
   CHR ''0'' \<notin> set malformed_message \<and> CHR ''1'' \<notin> set malformed_message"
  by (simp add: parse_input_def enumerate_eq_zip process_element_def is_iter_def as_list_def
      type_is_Graph_def malformed_message_def)

text \<open>
  Claim C4, as the code has it. For every input sequence, the elements that are iterables
  of length 0 contribute nothing to the output and no error is raised for them: the list
  returned, or the exception raised, is the one obtained for the sequence without them. Each
  such element that the loop reaches is skipped with one warning,
  \<open>Ignoring empty element on index: \<close> followed by its index; the loop reaches the elements
  before the first rejected one (an element that is neither an iterable of length 0, 2 or 3
  nor of type exactly \<open>Graph\<close>, at which \<open>parse_input\<close> raises), and all elements when none
  is rejected. Parsing \<open>[(), (g1, {0: 'a'}), ()]\<close> returns a list of one summary, with two
  warnings (for the indices 0 and 2) and no error.
\<close>

theorem parse_input_skips_empty_elements:
  "snd (parse_input (IterableInput X)) =
     snd (parse_input (IterableInput (filter (\<lambda>x. \<not> is_empty_elem x) X))) \<and>
   fst (parse_input (IterableInput X)) =
     map (\<lambda>p. empty_warning (fst p))
       (filter (\<lambda>p. is_empty_elem (snd p))
         (takeWhile (\<lambda>p. \<not> rejected (snd p)) (enumerate 0 X))) \<and>
   parse_input (IterableInput
       [Iterable [], Iterable [PyOther [], PyDict [(0::nat, ''a'')]], Iterable []]) =
     ([''Ignoring empty element on index: 0'', ''Ignoring empty element on index: 2''],
      Inr [[(''a'', [0])]])"
proof (intro conjI)
  show "snd (parse_input (IterableInput X)) =
     snd (parse_input (IterableInput (filter (\<lambda>x. \<not> is_empty_elem x) X)))"
    by (simp only: parse_input_result loop_result_filter_empty)
  show "fst (parse_input (IterableInput X)) =
     map (\<lambda>p. empty_warning (fst p))
       (filter (\<lambda>p. is_empty_elem (snd p))
         (takeWhile (\<lambda>p. \<not> rejected (snd p)) (enumerate 0 X)))"
    by (simp add: parse_input_warnings fst_parse_loop)
  show "parse_input (IterableInput
       [Iterable [], Iterable [PyOther [], PyDict [(0::nat, ''a'')]], Iterable []]) =
     ([''Ignoring empty element on index: 0'', ''Ignoring empty element on index: 2''],
      Inr [[(''a'', [0])]])"
    by (simp add: parse_input_def enumerate_eq_zip process_element_def is_iter_def as_list_def
        call_inv_dict_def inv_dict_def empty_warning_def digit_char_def)
qed

theorem parse_input_skips_empty_elements_witness:
  "fst (parse_input (IterableInput
      [Iterable [], GraphObject [(0::nat, ''a'')], Iterable [], OtherObject, Iterable []])) =
     [''Ignoring empty element on index: 0'', ''Ignoring empty element on index: 2''] \<and>
   snd (parse_input (IterableInput
      [Iterable [], GraphObject [(0::nat, ''a'')], Iterable [], OtherObject, Iterable []])) =
     snd (parse_input (IterableInput [GraphObject [(0::nat, ''a'')], OtherObject]))"
  using parse_input_skips_empty_elements[of
      "[Iterable [], GraphObject [(0::nat, ''a'')], Iterable [], OtherObject, Iterable []]"]
  by (simp add: enumerate_eq_zip is_empty_elem_def rejected_def is_iter_def
      as_list_def type_is_Graph_def empty_warning_def digit_char_def)

text \<open>
  Claim C4, as stated, has every length-0 element of every input sequence skipped with a
  warning. An element that stands after a rejected one is never reached: parsing
  \<open>[5, ()]\<close> raises the \<open>ValueError\<close> of the element at index 0 and emits no warning, so the
  length-0 element at index 1 is not skipped with a warning.
\<close>

theorem parse_input_no_warning_after_rejected:
  "is_empty_elem (Iterable [] :: (nat, string) element) \<and>
   parse_input (IterableInput [OtherObject, Iterable [] :: (nat, string) element]) =
     ([], Inl (ValueError malformed_message))"
  by (simp add: is_empty_elem_def parse_input_def enumerate_eq_zip process_element_def
      is_iter_def as_list_def type_is_Graph_def)

text \<open>
  Claim C5. For every input sequence \<open>X\<close>, \<open>parse_input\<close> raises the \<open>ValueError\<close> with the
  message \<open>parsed input is empty\<close> exactly when every element of \<open>X\<close> is an iterable of
  length 0, which includes the empty \<open>X\<close>: these are the inputs for which the list of
  summaries is empty after the loop. Parsing \<open>[(), ()]\<close> raises it.
\<close>

theorem parse_input_empty_result:
  "(snd (parse_input (IterableInput X)) = Inl (ValueError empty_message)) =
   (\<forall>x\<in>set X. is_empty_elem x)"
proof
  assume all: "\<forall>x\<in>set X. is_empty_elem x"
  then have "\<forall>x\<in>set X. \<not> rejected x"
    by (simp add: rejected_iff)
  from loop_result_prefix[OF this, of "[]" "[]"]
  have "loop_result X [] = Inr (List.map_filter summary_of X)"
    by simp
  moreover have "List.map_filter summary_of X = []"
    using all by (induction X) (simp_all add: map_filter_simps empty_no_summary)
  ultimately show "snd (parse_input (IterableInput X)) = Inl (ValueError empty_message)"
    by (simp add: parse_input_result)
next
  assume res: "snd (parse_input (IterableInput X)) = Inl (ValueError empty_message)"
  show "\<forall>x\<in>set X. is_empty_elem x"
  proof (cases "loop_result X []")
    case (Inl e)
    with res have "e = ValueError empty_message"
      by (simp add: parse_input_result)
    with loop_result_Inl[OF Inl] show ?thesis
      by (simp add: malformed_message_def empty_message_def)
  next
    case (Inr Xp)
    with res have "length Xp = 0"
      by (simp add: parse_input_result split: if_splits)
    with loop_result_Inr[OF Inr] have "filter (\<lambda>x. \<not> is_empty_elem x) X = []"
      by simp
    then show ?thesis
      by (simp add: filter_empty_conv)
  qed
qed

theorem parse_input_empty_result_witness:
  "is_empty_elem (Iterable [] :: (nat, string) element) \<and>
   snd (parse_input (IterableInput [Iterable [], Iterable [] :: (nat, string) element])) =
     Inl (ValueError ''parsed input is empty'') \<and>
   \<not> is_empty_elem (GraphObject [(0::nat, ''a'')]) \<and>
   snd (parse_input (IterableInput [Iterable [], GraphObject [(0::nat, ''a'')]])) \<noteq>
     Inl (ValueError ''parsed input is empty'')"
  using parse_input_empty_result[of "[Iterable [], Iterable [] :: (nat, string) element]"]
    parse_input_empty_result[of "[Iterable [], GraphObject [(0::nat, ''a'')]]"]
  by (simp add: is_empty_elem_def is_iter_def as_list_def empty_message_def)

text \<open>
  Claim C7, as the code has it. An element that is a graph object of type exactly \<open>Graph\<close>
  is accepted as it is, without the tuple form: the loop appends the inversion of the
  mapping that its \<open>get_labels(purpose="any")\<close> returns. Such graph objects and raw tuples of
  length 2 or 3 can be mixed: for a non-empty input made of such elements only,
  \<open>parse_input\<close> returns, without a warning, the inversions of the node-label mappings of
  the elements, one for each element and in their order.
\<close>

theorem parse_input_graph_objects:
  assumes "X \<noteq> []" and "\<forall>x\<in>set X. type_is_Graph x \<or> raw_tuple x"
  shows "process_element i (GraphObject d) = Append (inv_dict d) \<and>
         (\<exists>ds. map node_labels_of X = map Some ds \<and>
               parse_input (IterableInput X) = ([], Inr (map inv_dict ds)))"
proof
  show "process_element i (GraphObject d) = Append (inv_dict d)"
    by (simp add: process_element_labels node_labels_of_def)
next
  have lab: "node_labels_of x \<noteq> None" if "x \<in> set X" for x
  proof (cases "type_is_Graph x")
    case True
    then show ?thesis
      by (cases x) (simp_all add: type_is_Graph_def node_labels_of_def)
  next
    case False
    with assms(2) that show ?thesis by (auto simp: raw_tuple_def)
  qed
  define ds where "ds = List.map_filter node_labels_of X"
  have ds: "map node_labels_of X = map Some ds"
    unfolding ds_def by (rule map_filter_all_Some) (rule lab)
  have acc: "\<forall>x\<in>set X. \<not> rejected x"
    using lab node_labels_summary by (fastforce simp: rejected_iff)
  have sums: "List.map_filter summary_of X = map inv_dict ds"
    unfolding ds_def using lab
  proof (induction X)
    case Nil
    show ?case by (simp add: map_filter_simps)
  next
    case (Cons x X)
    from Cons.prems[of x] obtain d where d: "node_labels_of x = Some d" by auto
    from Cons.IH Cons.prems have "List.map_filter summary_of X =
        map inv_dict (List.map_filter node_labels_of X)" by simp
    then show ?case
      by (simp add: map_filter_simps d node_labels_summary[OF d])
  qed
  have nonempty: "\<not> is_empty_elem x" if "x \<in> set X" for x
  proof -
    from lab[OF that] obtain d where "node_labels_of x = Some d" by auto
    from node_labels_summary[OF this] empty_no_summary[of x] show ?thesis by auto
  qed
  have "ds \<noteq> []"
    using ds assms(1) by (cases X) auto
  moreover have "loop_result X [] = Inr (map inv_dict ds)"
    using loop_result_prefix[OF acc, of "[]" "[]"] by (simp add: sums)
  ultimately have r: "snd (parse_input (IterableInput X)) = Inr (map inv_dict ds)"
    by (simp add: parse_input_result)
  have "filter (\<lambda>p. is_empty_elem (snd p))
          (takeWhile (\<lambda>p. \<not> rejected (snd p)) (enumerate 0 X)) = []"
    unfolding filter_empty_conv
  proof
    fix p assume "p \<in> set (takeWhile (\<lambda>p. \<not> rejected (snd p)) (enumerate 0 X))"
    then have "p \<in> set (enumerate 0 X)" by (rule set_takeWhileD[THEN conjunct1])
    then have "snd p \<in> snd ` set (enumerate 0 X)" by (rule imageI)
    then have "snd p \<in> set (map snd (enumerate 0 X))" by (simp only: set_map)
    then have "snd p \<in> set X" by simp
    then show "\<not> is_empty_elem (snd p)" by (rule nonempty)
  qed
  then have w: "fst (parse_input (IterableInput X)) = []"
    by (simp add: parse_input_warnings fst_parse_loop)
  have "parse_input (IterableInput X) = ([], Inr (map inv_dict ds))"
    using r w by (cases "parse_input (IterableInput X)") simp
  with ds show "\<exists>ds. map node_labels_of X = map Some ds \<and>
               parse_input (IterableInput X) = ([], Inr (map inv_dict ds))"
    by blast
qed

theorem parse_input_graph_objects_witness:
  "type_is_Graph (GraphObject [(0::nat, ''a''), (1, ''b''), (2, ''a'')]) \<and>
   raw_tuple (Iterable [PyOther [], PyDict [(0::nat, ''x'')]]) \<and>
   raw_tuple (Iterable [PyOther [], PyDict [(5::nat, ''y'')], PyOther []]) \<and>
   parse_input (IterableInput
     [GraphObject [(0::nat, ''a''), (1, ''b''), (2, ''a'')],
      Iterable [PyOther [], PyDict [(0, ''x'')]],
      Iterable [PyOther [], PyDict [(5, ''y'')], PyOther []]]) =
   ([], Inr [[(''a'', [0, 2]), (''b'', [1])], [(''x'', [0])], [(''y'', [5])]])"
proof -
  let ?g = "GraphObject [(0::nat, ''a''), (1, ''b''), (2, ''a'')]"
  let ?t2 = "Iterable [PyOther [], PyDict [(0::nat, ''x'')]]"
  let ?t3 = "Iterable [PyOther [], PyDict [(5::nat, ''y'')], PyOther []]"
  have g: "type_is_Graph ?g"
    by (simp add: type_is_Graph_def)
  have t2: "raw_tuple ?t2" and t3: "raw_tuple ?t3"
    by (simp_all add: raw_tuple_def is_iter_def node_labels_of_def)
  have ne: "[?g, ?t2, ?t3] \<noteq> []" by simp
  have all: "\<forall>x\<in>set [?g, ?t2, ?t3]. type_is_Graph x \<or> raw_tuple x"
    using g t2 t3 by simp
  from parse_input_graph_objects[OF ne all, of 0 "[]"]
  obtain ds where ds: "map node_labels_of [?g, ?t2, ?t3] = map Some ds"
    and run: "parse_input (IterableInput [?g, ?t2, ?t3]) = ([], Inr (map inv_dict ds))"
    by blast
  from ds have "ds = [[(0::nat, ''a''), (1, ''b''), (2, ''a'')], [(0, ''x'')], [(5, ''y'')]]"
    by (auto simp: node_labels_of_def Cons_eq_map_conv)
  with run have "parse_input (IterableInput [?g, ?t2, ?t3]) =
      ([], Inr [[(''a'', [0, 2]), (''b'', [1])], [(''x'', [0])], [(''y'', [5])]])"
    by (simp add: inv_dict_def)
  with g t2 t3 show ?thesis by simp
qed

text \<open>
  Claim C7, as stated, has every pre-built graph object accepted. An instance of a proper
  subclass of \<open>Graph\<close> is a graph object, with the same \<open>get_labels\<close>, and it is not accepted:
  the test is \<open>type(x) is Graph\<close>. Parsing a sequence of one such object raises the
  \<open>ValueError\<close> for a malformed element, and so does a call that mixes it with an object of
  type \<open>Graph\<close> and a raw tuple.
\<close>

theorem parse_input_graph_subclass_not_accepted:
  "is_graph_object (GraphSubclassObject [(0::nat, ''a'')]) \<and>
   parse_input (IterableInput [GraphSubclassObject [(0::nat, ''a'')]]) =
     ([], Inl (ValueError malformed_message)) \<and>
   parse_input (IterableInput
     [GraphObject [(0::nat, ''a'')], GraphSubclassObject [(0, ''a'')],
      Iterable [PyOther [], PyDict [(0, ''a'')]]]) =
     ([], Inl (ValueError malformed_message))"
  by (simp add: is_graph_object_def parse_input_def enumerate_eq_zip process_element_def
      is_iter_def as_list_def type_is_Graph_def)

text \<open>
  Claim C9. An element that is not an iterable of length 0, 2 or 3 gets a summary appended
  only when its type is exactly \<open>Graph\<close>. An instance of a proper subclass of \<open>Graph\<close> that is
  not iterable is rejected: \<open>parse_input\<close> raises the \<open>ValueError\<close> for a malformed element
  (when every iterable of length 2 or 3 before it carries a node-label mapping as its second
  item), and \<open>get_labels\<close> of the instance is not used.
\<close>

theorem parse_input_rejects_graph_subclass:
  assumes "\<forall>y\<in>set pre. has_node_labels y"
  shows "snd (parse_input (IterableInput (pre @ GraphSubclassObject d # post))) =
           Inl (ValueError malformed_message) \<and>
         (\<not> (is_iter x \<and> length (as_list x) \<in> {0, 2, 3}) \<longrightarrow>
            (\<exists>invL. process_element i x = Append invL) = type_is_Graph x)"
proof
  have "rejected (GraphSubclassObject d)"
    by (simp add: rejected_def is_iter_def type_is_Graph_def)
  from loop_result_rejected[OF this]
  show "snd (parse_input (IterableInput (pre @ GraphSubclassObject d # post))) =
           Inl (ValueError malformed_message)"
    by (simp add: parse_input_result)
next
  show "\<not> (is_iter x \<and> length (as_list x) \<in> {0, 2, 3}) \<longrightarrow>
            (\<exists>invL. process_element i x = Append invL) = type_is_Graph x"
    by (cases x) (auto simp: process_element_def is_iter_def as_list_def type_is_Graph_def)
qed

theorem parse_input_rejects_graph_subclass_witness:
  "has_node_labels (GraphObject [(0::nat, ''a'')]) \<and>
   snd (parse_input (IterableInput
     [GraphObject [(0::nat, ''a'')], GraphSubclassObject [(0, ''a'')]])) =
     Inl (ValueError malformed_message) \<and>
   snd (parse_input (IterableInput
     [GraphObject [(0::nat, ''a'')], GraphObject [(0, ''a'')]])) =
     Inr [[(''a'', [0])], [(''a'', [0])]] \<and>
   \<not> type_is_Graph (GraphSubclassObject [(0::nat, ''a'')]) \<and>
   process_element 1 (GraphSubclassObject [(0::nat, ''a'')]) \<noteq> Append (inv_dict [(0::nat, ''a'')])"
proof -
  let ?g = "GraphObject [(0::nat, ''a'')]"
  let ?s = "GraphSubclassObject [(0::nat, ''a'')]"
  have h: "has_node_labels ?g"
    by (simp add: has_node_labels_def)
  then have pre: "\<forall>y\<in>set [?g]. has_node_labels y" by simp
  have ok: "snd (parse_input (IterableInput [?g, ?g])) = Inr [[(''a'', [0])], [(''a'', [0])]]"
    by (simp add: parse_input_def enumerate_eq_zip process_element_def is_iter_def as_list_def
        type_is_Graph_def get_labels_def inv_dict_def)
  have ns: "\<not> type_is_Graph ?s"
    by (simp add: type_is_Graph_def)
  have ni: "\<not> (is_iter ?s \<and> length (as_list ?s) \<in> {0, 2, 3})"
    by (simp add: is_iter_def)
  from parse_input_rejects_graph_subclass[OF pre, of "[(0::nat, ''a'')]" "[]" ?s 1]
  have rej: "snd (parse_input (IterableInput [?g, ?s])) = Inl (ValueError malformed_message)"
    and only: "(\<exists>invL. process_element 1 ?s = Append invL) = type_is_Graph ?s"
    using ni by simp_all
  from only ns have "process_element 1 ?s \<noteq> Append (inv_dict [(0::nat, ''a'')])"
    by blast
  with h rej ok ns show ?thesis by simp
qed

section \<open>The matrix of \<open>fit_transform\<close>\<close>

lemma those_map_Some: "those (map Some xs) = Some xs"
  by (induction xs) simp_all

lemma shared_label_sum_extend:
  assumes "finite L" and "set (dict_keys a) \<subseteq> L"
  shows "shared_label_sum a b = (\<Sum>l\<in>L. bucket_size a l * bucket_size b l)"
  unfolding shared_label_sum_def
proof (rule sum.mono_neutral_left)
  show "finite L" by (rule assms(1))
  show "set (dict_keys a) \<inter> set (dict_keys b) \<subseteq> L" using assms(2) by blast
  show "\<forall>l\<in>L - set (dict_keys a) \<inter> set (dict_keys b). bucket_size a l * bucket_size b l = 0"
  proof
    fix l assume "l \<in> L - set (dict_keys a) \<inter> set (dict_keys b)"
    then have "l \<notin> set (dict_keys a) \<or> l \<notin> set (dict_keys b)" by blast
    then show "bucket_size a l * bucket_size b l = 0"
      using bucket_size_absent[of l a] bucket_size_absent[of l b] by auto
  qed
qed

lemma gram_quadratic_form_nonneg:
  fixes c :: "nat \<Rightarrow> real"
  shows "0 \<le> (\<Sum>i<length gs. \<Sum>j<length gs.
            c i * real_of_int (shared_label_sum (gs ! i) (gs ! j)) * c j)"
proof -
  define L where "L = (\<Union>g\<in>set gs. set (dict_keys g))"
  define phi where "phi i l = real_of_int (bucket_size (gs ! i) l)" for i l
  have fin: "finite L" by (simp add: L_def)
  have entry: "real_of_int (shared_label_sum (gs ! i) (gs ! j)) = (\<Sum>l\<in>L. phi i l * phi j l)"
    if "i < length gs" for i j
  proof -
    have "gs ! i \<in> set gs"
      using that by (rule nth_mem)
    then have "set (dict_keys (gs ! i)) \<subseteq> L"
      unfolding L_def by blast
    from shared_label_sum_extend[OF fin this, of "gs ! j"] show ?thesis
      by (simp add: phi_def)
  qed
  have "(\<Sum>i<length gs. \<Sum>j<length gs.
            c i * real_of_int (shared_label_sum (gs ! i) (gs ! j)) * c j) =
        (\<Sum>i<length gs. \<Sum>j<length gs. \<Sum>l\<in>L. (c i * phi i l) * (c j * phi j l))"
  proof (rule sum.cong[OF refl], rule sum.cong[OF refl])
    fix i j assume "i \<in> {..<length gs}"
    then have "i < length gs" by simp
    show "c i * real_of_int (shared_label_sum (gs ! i) (gs ! j)) * c j =
          (\<Sum>l\<in>L. (c i * phi i l) * (c j * phi j l))"
      by (simp add: entry[OF \<open>i < length gs\<close>] sum_distrib_left sum_distrib_right algebra_simps)
  qed
  also have "\<dots> = (\<Sum>i<length gs. \<Sum>l\<in>L. \<Sum>j<length gs. (c i * phi i l) * (c j * phi j l))"
    by (rule sum.cong[OF refl]) (rule sum.swap)
  also have "\<dots> = (\<Sum>l\<in>L. \<Sum>i<length gs. \<Sum>j<length gs. (c i * phi i l) * (c j * phi j l))"
    by (rule sum.swap)
  also have "\<dots> = (\<Sum>l\<in>L. (\<Sum>i<length gs. c i * phi i l)\<^sup>2)"
    by (simp add: power2_eq_square sum_product)
  also have "0 \<le> \<dots>"
    by (rule sum_nonneg) simp
  finally show ?thesis .
qed


lemma scaled_gram_quadratic_form_nonneg:
  fixes c t :: "nat \<Rightarrow> real"
  shows "0 \<le> (\<Sum>i<length gs. \<Sum>j<length gs.
            c i * (t i * t j * real_of_int (shared_label_sum (gs ! i) (gs ! j))) * c j)"
proof -
  have "(\<Sum>i<length gs. \<Sum>j<length gs.
            c i * (t i * t j * real_of_int (shared_label_sum (gs ! i) (gs ! j))) * c j) =
        (\<Sum>i<length gs. \<Sum>j<length gs.
            (c i * t i) * real_of_int (shared_label_sum (gs ! i) (gs ! j)) * (c j * t j))"
    by (rule sum.cong[OF refl], rule sum.cong[OF refl]) (simp add: algebra_simps)
  also have "0 \<le> \<dots>"
    by (rule gram_quadratic_form_nonneg[of "\<lambda>i. c i * t i" gs])
  finally show ?thesis .
qed

lemma matrix_nth:
  "i < n \<Longrightarrow> j < n \<Longrightarrow> map (\<lambda>i. map (f i) [0..<n]) [0..<n] ! i ! j = f i j"
  by simp

lemma self_scores_wf:
  assumes "\<forall>g\<in>set gs. wf_dict g"
  shows "those (self_scores gs) = Some (map (\<lambda>g. shared_label_sum g g) gs)"
proof -
  have "self_scores gs = map Some (map (\<lambda>g. shared_label_sum g g) gs)"
    using assms by (simp add: self_scores_def pairwise_operation_shared)
  then show ?thesis by (simp only: those_map_Some)
qed

lemma score_matrix_wf:
  assumes "\<forall>g\<in>set gs. wf_dict g"
  shows "those (map those (score_matrix gs)) =
         Some (map (\<lambda>i. map (\<lambda>j. shared_label_sum (gs ! i) (gs ! j)) [0..<length gs])
                   [0..<length gs])"
proof -
  have entry: "(if i \<le> j then pairwise_operation (gs ! i) (gs ! j)
                else pairwise_operation (gs ! j) (gs ! i)) =
               Some (shared_label_sum (gs ! i) (gs ! j))"
    if "i < length gs" and "j < length gs" for i j
  proof -
    have "wf_dict (gs ! i)" and "wf_dict (gs ! j)"
      using assms that by simp_all
    then show ?thesis
      by (simp add: pairwise_operation_shared shared_label_sum_commute[of "gs ! j" "gs ! i"])
  qed
  have row: "those (map (\<lambda>j. if i \<le> j then pairwise_operation (gs ! i) (gs ! j)
                         else pairwise_operation (gs ! j) (gs ! i)) [0..<length gs]) =
             Some (map (\<lambda>j. shared_label_sum (gs ! i) (gs ! j)) [0..<length gs])"
    if "i < length gs" for i
  proof -
    have "map (\<lambda>j. if i \<le> j then pairwise_operation (gs ! i) (gs ! j)
                         else pairwise_operation (gs ! j) (gs ! i)) [0..<length gs] =
          map Some (map (\<lambda>j. shared_label_sum (gs ! i) (gs ! j)) [0..<length gs])"
      using entry[OF that] by simp
    then show ?thesis by (simp only: those_map_Some)
  qed
  have "map those (score_matrix gs) =
        map Some (map (\<lambda>i. map (\<lambda>j. shared_label_sum (gs ! i) (gs ! j)) [0..<length gs])
                   [0..<length gs])"
    using row by (simp add: score_matrix_def)
  then show ?thesis by (simp only: those_map_Some)
qed

lemma psd_eigenvalue_nonneg:
  assumes psd: "0 \<le> quadratic_form K v" and eig: "eigenpair K lam v"
  shows "0 \<le> lam"
proof -
  let ?n = "length K"
  have "quadratic_form K v = (\<Sum>i<?n. v i * (\<Sum>j<?n. K ! i ! j * v j))"
    unfolding quadratic_form_def
    by (rule sum.cong[OF refl]) (simp add: sum_distrib_left algebra_simps)
  also have "\<dots> = (\<Sum>i<?n. v i * (lam * v i))"
    using eig by (intro sum.cong[OF refl]) (simp add: eigenpair_def)
  also have "\<dots> = lam * (\<Sum>i<?n. (v i)\<^sup>2)"
    by (simp add: sum_distrib_left power2_eq_square algebra_simps)
  finally have q: "quadratic_form K v = lam * (\<Sum>i<?n. (v i)\<^sup>2)" .
  from eig obtain k where k: "k < ?n" "v k \<noteq> 0"
    by (auto simp: eigenpair_def)
  have "(\<Sum>i<?n. (v i)\<^sup>2) \<noteq> 0"
  proof
    assume "(\<Sum>i<?n. (v i)\<^sup>2) = 0"
    then have "\<forall>i\<in>{..<?n}. (v i)\<^sup>2 = 0"
      by (subst (asm) sum_nonneg_eq_0_iff) simp_all
    with k show False by simp
  qed
  moreover have "0 \<le> (\<Sum>i<?n. (v i)\<^sup>2)"
    by (rule sum_nonneg) simp
  ultimately have pos: "0 < (\<Sum>i<?n. (v i)\<^sup>2)" by simp
  from psd q have "0 \<le> lam * (\<Sum>i<?n. (v i)\<^sup>2)" by simp
  with pos show ?thesis
    by (simp add: zero_le_mult_iff)
qed


lemma scaled_gram_properties:
  assumes len: "length K = length gs"
    and entries: "\<And>i j. i < length gs \<Longrightarrow> j < length gs \<Longrightarrow>
           K ! i ! j = t i * t j * real_of_int (shared_label_sum (gs ! i) (gs ! j))"
  shows "(\<forall>i<length gs. \<forall>j<length gs. K ! i ! j = K ! j ! i) \<and>
         (\<forall>c. 0 \<le> quadratic_form K c) \<and>
         (\<forall>lam v. eigenpair K lam v \<longrightarrow> - (1 / 10 ^ 6) < lam)"
proof (intro conjI allI impI)
  fix i j assume "i < length gs" and "j < length gs"
  then show "K ! i ! j = K ! j ! i"
    by (simp add: entries shared_label_sum_commute[of "gs ! j" "gs ! i"])
next
  fix c :: "nat \<Rightarrow> real"
  have "quadratic_form K c =
        (\<Sum>i<length gs. \<Sum>j<length gs.
            c i * (t i * t j * real_of_int (shared_label_sum (gs ! i) (gs ! j))) * c j)"
    unfolding quadratic_form_def len
    by (rule sum.cong[OF refl], rule sum.cong[OF refl]) (simp add: entries)
  then show "0 \<le> quadratic_form K c"
    using scaled_gram_quadratic_form_nonneg[of c t gs] by simp
  note psd = this
next
  fix lam v assume eig: "eigenpair K lam v"
  have "quadratic_form K v =
        (\<Sum>i<length gs. \<Sum>j<length gs.
            v i * (t i * t j * real_of_int (shared_label_sum (gs ! i) (gs ! j))) * v j)"
    unfolding quadratic_form_def len
    by (rule sum.cong[OF refl], rule sum.cong[OF refl]) (simp add: entries)
  then have "0 \<le> quadratic_form K v"
    using scaled_gram_quadratic_form_nonneg[of v t gs] by simp
  from psd_eigenvalue_nonneg[OF this eig] show "- (1 / 10 ^ 6) < lam"
    by simp
qed

text \<open>
  Claim C8. Let \<open>fit_transform\<close> be called on a collection that \<open>parse_input\<close> accepts, with
  summaries that have one entry per key and, when the matrix is normalized, with no graph
  of zero self-similarity. Then it returns a square, symmetric matrix whose quadratic form
  is nowhere negative. So the matrix has no negative eigenvalue, and every eigenvalue, the
  least one included, is greater than \<open>-1e-6\<close>.
\<close>

theorem fit_transform_gram_matrix:
  assumes parsed: "snd (parse_input X) = Inr gs"
    and wf: "\<forall>g\<in>set gs. wf_dict g"
    and nondeg: "do_normalize \<longrightarrow> (\<forall>g\<in>set gs. pairwise_operation g g \<noteq> Some 0)"
  shows "\<exists>K. fit_transform do_normalize X = Inr K \<and>
           length K = length gs \<and> (\<forall>row\<in>set K. length row = length gs) \<and>
           (\<forall>i<length gs. \<forall>j<length gs. K ! i ! j = K ! j ! i) \<and>
           (\<forall>c. 0 \<le> quadratic_form K c) \<and>
           (\<forall>lam v. eigenpair K lam v \<longrightarrow> - (1 / 10 ^ 6) < lam)"
proof -
  let ?n = "length gs"
  let ?S = "map (\<lambda>i. map (\<lambda>j. shared_label_sum (gs ! i) (gs ! j)) [0..<?n]) [0..<?n]"
  let ?d = "map (\<lambda>g. shared_label_sum g g) gs"
  have run: "fit_transform do_normalize X =
      (if do_normalize
       then (if 0 \<in> set ?d then Inl DegenerateGraphError else Inr (rescale ?d ?S))
       else Inr (map (map real_of_int) ?S))"
    by (simp add: fit_transform_def parsed self_scores_wf[OF wf] score_matrix_wf[OF wf])
  show ?thesis
  proof (cases do_normalize)
    case False
    let ?K = "map (map real_of_int) ?S"
    have ft: "fit_transform do_normalize X = Inr ?K"
      unfolding run using False by simp
    have len: "length ?K = ?n" by simp
    have rows: "\<forall>row\<in>set ?K. length row = ?n" by auto
    have entries: "?K ! i ! j = 1 * 1 * real_of_int (shared_label_sum (gs ! i) (gs ! j))"
      if "i < ?n" and "j < ?n" for i j
      using that by simp
    from scaled_gram_properties[of ?K gs "\<lambda>i. 1", OF len entries] ft len rows
    show ?thesis by blast
  next
    case True
    let ?K = "rescale ?d ?S"
    let ?t = "\<lambda>i. 1 / sqrt (real_of_int (shared_label_sum (gs ! i) (gs ! i)))"
    have "0 \<notin> set ?d"
    proof
      assume "0 \<in> set ?d"
      then obtain g where g: "g \<in> set gs" "shared_label_sum g g = 0" by auto
      from g(1) wf have "pairwise_operation g g = Some (shared_label_sum g g)"
        by (simp add: pairwise_operation_shared)
      with g nondeg True show False by simp
    qed
    then have ft: "fit_transform do_normalize X = Inr ?K"
      unfolding run using True by simp
    have len: "length ?K = ?n" by (simp add: rescale_def)
    have rows: "\<forall>row\<in>set ?K. length row = ?n" by (auto simp: rescale_def)
    have entries: "?K ! i ! j = ?t i * ?t j * real_of_int (shared_label_sum (gs ! i) (gs ! j))"
      if "i < ?n" and "j < ?n" for i j
      using that by (simp add: rescale_def real_sqrt_mult)
    from scaled_gram_properties[of ?K gs ?t, OF len entries] ft len rows
    show ?thesis by blast
  qed
qed


theorem fit_transform_gram_matrix_witness:
  "snd (parse_input (IterableInput
      [GraphObject [(0::nat, ''a''), (2, ''b'')], Iterable [PyOther [], PyDict [(0, ''a'')]]])) =
     Inr [[(''a'', [0]), (''b'', [2])], [(''a'', [0])]] \<and>
   wf_dict [(''a'', [0::nat]), (''b'', [2])] \<and> wf_dict [(''a'', [0::nat])] \<and>
   pairwise_operation [(''a'', [0::nat]), (''b'', [2])] [(''a'', [0::nat]), (''b'', [2])] = Some 2 \<and>
   pairwise_operation [(''a'', [0::nat])] [(''a'', [0::nat])] = Some 1 \<and>
   fit_transform False (IterableInput
      [GraphObject [(0::nat, ''a''), (2, ''b'')], Iterable [PyOther [], PyDict [(0, ''a'')]]]) =
     Inr [[2, 1], [1, 1]] \<and>
   (\<exists>K. fit_transform True (IterableInput
      [GraphObject [(0::nat, ''a''), (2, ''b'')], Iterable [PyOther [], PyDict [(0, ''a'')]]]) =
        Inr K \<and>
      length K = 2 \<and> K ! 0 ! 1 = K ! 1 ! 0 \<and>
      0 \<le> quadratic_form K (\<lambda>i. if i = 0 then 1 else - 2))"
proof -
  let ?X = "IterableInput
      [GraphObject [(0::nat, ''a''), (2, ''b'')], Iterable [PyOther [], PyDict [(0, ''a'')]]]"
  let ?g1 = "[(''a'', [0::nat]), (''b'', [2])]"
  let ?g2 = "[(''a'', [0::nat])]"
  have p: "snd (parse_input ?X) = Inr [?g1, ?g2]"
    by (simp add: parse_input_def enumerate_eq_zip process_element_def is_iter_def as_list_def
        type_is_Graph_def get_labels_def call_inv_dict_def inv_dict_def)
  have w1: "wf_dict ?g1" and w2: "wf_dict ?g2"
    by (simp_all add: wf_dict_def dict_keys_def)
  have s1: "pairwise_operation ?g1 ?g1 = Some 2" and s2: "pairwise_operation ?g2 ?g2 = Some 1"
    and s12: "pairwise_operation ?g1 ?g2 = Some 1" and s21: "pairwise_operation ?g2 ?g1 = Some 1"
    by (simp_all add: pairwise_operation_def dict_len_def kernel_sum_def dict_keys_def
        dict_contains_def product_term_def dict_getitem_def)
  have wf: "\<forall>g\<in>set [?g1, ?g2]. wf_dict g"
    using w1 w2 by simp
  have nd: "True \<longrightarrow> (\<forall>g\<in>set [?g1, ?g2]. pairwise_operation g g \<noteq> Some 0)"
    using s1 s2 by simp
  have plain: "fit_transform False ?X = Inr [[2, 1], [1, 1]]"
    unfolding fit_transform_def p
    by (simp add: self_scores_def score_matrix_def s1 s2 s12 s21 upt_rec[of 0] upt_rec[of 1])
  from fit_transform_gram_matrix[OF p wf nd]
  obtain K where K: "fit_transform True ?X = Inr K" "length K = 2"
      "\<forall>i<2. \<forall>j<2. K ! i ! j = K ! j ! i" "\<forall>c. 0 \<le> quadratic_form K c"
    by auto
  from K(3) have "K ! 0 ! 1 = K ! 1 ! 0" by simp
  with K have "\<exists>K. fit_transform True ?X = Inr K \<and> length K = 2 \<and> K ! 0 ! 1 = K ! 1 ! 0 \<and>
      0 \<le> quadratic_form K (\<lambda>i. if i = 0 then 1 else - 2)"
    by blast
  with p w1 w2 s1 s2 plain show ?thesis by simp
qed

end
